theory Spec2Isabelle
  imports Main "HOL-Library.Word" "HOL-Library.Log_Nat"
begin

section \<open>Atlas word game: the rules engine of \<^verbatim>\<open>script.js\<close>\<close>

subsection \<open>JavaScript strings and values\<close>

text \<open>
  A JavaScript string is a sequence of UTF-16 code units; string equality, indexing,
  \<^verbatim>\<open>slice\<close> and a regular expression without the \<^verbatim>\<open>u\<close> flag all work on code
  units.
\<close>

type_synonym codeunit = "16 word"
type_synonym jsstring = "codeunit list"

text \<open>
  The values the script compares with \<^verbatim>\<open>===\<close>: \<^verbatim>\<open>lastLetter\<close> is \<^verbatim>\<open>null\<close> or a
  string, \<^verbatim>\<open>w[0]\<close> is a one-unit string or \<^verbatim>\<open>undefined\<close>. Strict equality of
  two such values is equality of the datatype (\<^verbatim>\<open>undefined === null\<close> is false).
\<close>

datatype jsval = Undefined | Null | Str jsstring

text \<open>Truthiness, as used by \<^verbatim>\<open>!normWord\<close> and \<^verbatim>\<open>lastLetter && ...\<close>.\<close>

fun truthy :: "jsval \<Rightarrow> bool" where
  "truthy Undefined = False"
| "truthy Null = False"
| "truthy (Str s) = (s \<noteq> [])"

text \<open>\<^verbatim>\<open>w[0]\<close>: the first code unit as a string, \<^verbatim>\<open>undefined\<close> on the empty string.\<close>

fun index0 :: "jsstring \<Rightarrow> jsval" where
  "index0 [] = Undefined"
| "index0 (c # cs) = Str [c]"

text \<open>\<^verbatim>\<open>w.slice(-1)\<close>: the last code unit as a string, the empty string on the empty string.\<close>

definition sliceLast :: "jsstring \<Rightarrow> jsstring" where
  "sliceLast w = (if w = [] then [] else [last w])"

text \<open>\<^verbatim>\<open>xs.includes(x)\<close> on an array of strings.\<close>

definition includes_arr :: "jsstring list \<Rightarrow> jsstring \<Rightarrow> bool" where
  "includes_arr xs x = (x \<in> set xs)"

text \<open>An ASCII literal as a JavaScript string (used to write concrete inputs).\<close>

definition ascii :: "string \<Rightarrow> jsstring" where
  "ascii cs = map (\<lambda>c. word_of_nat (of_char c)) cs"

subsection \<open>Normalization\<close>

definition isLowerAZ :: "codeunit \<Rightarrow> bool" where
  "isLowerAZ c = (0x61 \<le> c \<and> c \<le> 0x7A)"

definition isUpperAZ :: "codeunit \<Rightarrow> bool" where
  "isUpperAZ c = (0x41 \<le> c \<and> c \<le> 0x5A)"

text \<open>
  \<^verbatim>\<open>String.prototype.toLowerCase\<close>, one code unit at a time. The locale-independent
  Unicode lower-case mapping sends \<^verbatim>\<open>A\<close>--\<^verbatim>\<open>Z\<close> to \<^verbatim>\<open>a\<close>--\<^verbatim>\<open>z\<close>, U+0130 (capital I
  with dot above) to \<^verbatim>\<open>i\<close> followed by U+0307, and U+212A (Kelvin sign) to \<^verbatim>\<open>k\<close>. Every
  other character is mapped to characters outside \<^verbatim>\<open>a\<close>--\<^verbatim>\<open>z\<close> (or to itself); the only
  caller deletes those right away, so they are left as they are here.
\<close>

definition lowerUnit :: "codeunit \<Rightarrow> jsstring" where
  "lowerUnit c =
     (if isUpperAZ c then [c + 0x20]
      else if c = 0x130 then [0x69, 0x307]
      else if c = 0x212A then [0x6B]
      else [c])"

definition toLowerCase :: "jsstring \<Rightarrow> jsstring" where
  "toLowerCase s = concat (map lowerUnit s)"

text \<open>\<^verbatim>\<open>s.replace(/[^a-z]/g, "")\<close>: delete every code unit outside \<^verbatim>\<open>a\<close>--\<^verbatim>\<open>z\<close>.\<close>

definition removeNonAZ :: "jsstring \<Rightarrow> jsstring" where
  "removeNonAZ s = filter isLowerAZ s"

text \<open>
  \<^verbatim>\<open>function normalizeInput(word) { return word.toLowerCase().replace(/[^a-z]/g, ""); }\<close>
\<close>

definition normalizeInput :: "jsstring \<Rightarrow> jsstring" where
  "normalizeInput word = removeNonAZ (toLowerCase word)"

text \<open>
  \<^verbatim>\<open>String.prototype.trim\<close>: strips white space and line terminators from both ends.
\<close>

definition isWhiteSpace :: "codeunit \<Rightarrow> bool" where
  "isWhiteSpace c =
     ((0x09 \<le> c \<and> c \<le> 0x0D) \<or> c = 0x20 \<or> c = 0xA0 \<or> c = 0x1680
      \<or> (0x2000 \<le> c \<and> c \<le> 0x200A) \<or> c = 0x2028 \<or> c = 0x2029 \<or> c = 0x202F
      \<or> c = 0x205F \<or> c = 0x3000 \<or> c = 0xFEFF)"

definition trim :: "jsstring \<Rightarrow> jsstring" where
  "trim s = rev (dropWhile isWhiteSpace (rev (dropWhile isWhiteSpace s)))"

subsection \<open>Numbers: \<^verbatim>\<open>Math.floor(Math.random() * candidates.length)\<close>\<close>

text \<open>
  A JavaScript Number is an IEEE 754 binary64 value. A finite value that is not negative
  is written here as a pair of a significand and an exponent, denoting
  \<open>mant * 2 ^ expo\<close>; it is a binary64 value when the significand has at most 53 bits
  and the exponent is in range.
\<close>

record double =
  mant :: nat
  expo :: int

definition isDouble :: "double \<Rightarrow> bool" where
  "isDouble d = (mant d < 2 ^ 53 \<and> - 1074 \<le> expo d \<and> expo d \<le> 971)"

text \<open>The value denoted is less than 1 (the range of \<^verbatim>\<open>Math.random()\<close> is [0, 1)).\<close>

definition belowOne :: "double \<Rightarrow> bool" where
  "belowOne d = (if 0 \<le> expo d then mant d = 0 else mant d < 2 ^ nat (- expo d))"

text \<open>
  Rounding of the exact value \<open>m * 2 ^ e\<close> to binary64, to nearest with ties to even: a
  significand of more than 53 bits loses its low \<open>k\<close> bits, and is incremented when the
  lost bits are more than half a unit in the last place, or exactly half and the kept
  significand is odd. (When the increment carries, the pair \<open>(2 ^ 53, e + k)\<close> denotes
  the next power of two.) The exponent never decreases, so a result that needed rounding
  is not subnormal; the products formed below are less than \<open>2 ^ 32\<close>, so none
  overflows.
\<close>

definition roundDouble :: "nat \<Rightarrow> int \<Rightarrow> double" where
  "roundDouble m e =
     (if m < 2 ^ 53 then \<lparr>mant = m, expo = e\<rparr>
      else
        let k = nat (bitlen (int m) - 53);
            q = m div 2 ^ k;
            lost = m mod 2 ^ k;
            half = 2 ^ (k - 1)
        in \<lparr>mant = (if half < lost \<or> (lost = half \<and> odd q) then q + 1 else q),
            expo = e + int k\<rparr>)"

text \<open>
  \<^verbatim>\<open>r * n\<close> for an array length \<open>n\<close>: a length is below \<open>2 ^ 32\<close>, so it is a Number
  exactly, and the product is the exact product rounded.
\<close>

definition mulLength :: "double \<Rightarrow> nat \<Rightarrow> double" where
  "mulLength r n = roundDouble (mant r * n) (expo r)"

text \<open>\<^verbatim>\<open>Math.floor\<close> of a Number that is not negative, as the integer it denotes.\<close>

definition floorDouble :: "double \<Rightarrow> nat" where
  "floorDouble d =
     (if 0 \<le> expo d then mant d * 2 ^ nat (expo d) else mant d div 2 ^ nat (- expo d))"

definition randomIndex :: "double \<Rightarrow> nat \<Rightarrow> nat" where
  "randomIndex r n = floorDouble (mulLength r n)"

subsection \<open>Match state and the two moves\<close>

text \<open>
  The globals \<^verbatim>\<open>used\<close> and \<^verbatim>\<open>lastLetter\<close>. The third global, \<^verbatim>\<open>wordlist\<close>, is filled
  once from \<^verbatim>\<open>wordlist.json\<close> and never written again; it is a parameter of both moves.
  (Until the file has arrived the list is empty, no move is accepted and the globals stay
  as they are initially.)
\<close>

record state =
  used :: "jsstring list"
  lastLetter :: jsval

definition initial :: state where
  "initial = \<lparr>used = [], lastLetter = Null\<rparr>"

text \<open>
  What a move reports through \<^verbatim>\<open>setResult\<close>:
  \<^item> \<open>EmptyInput\<close>: ``Please enter a country.''
  \<^item> \<open>UnknownWord\<close>: ``Invalid country!''
  \<^item> \<open>WordAlreadyUsed\<close>: ``Already used!''
  \<^item> \<open>LetterMismatch l\<close>: ``Must start with 'l'.''
  \<^item> \<open>PlayerPlayed w\<close>: ``You played: ...'' (the display form of \<open>w\<close>)
  \<^item> \<open>PlayerWon\<close>: ``You win! Bot stuck.''
  \<^item> \<open>BotPlayed w\<close>: ``Bot played: ...'' (the display form of \<open>w\<close>)
\<close>

datatype result =
    EmptyInput
  | UnknownWord
  | WordAlreadyUsed
  | LetterMismatch jsval
  | PlayerPlayed jsstring
  | PlayerWon
  | BotPlayed jsstring

datatype jserror = TypeError

text \<open>
  \<^verbatim>\<open>playWord\<close>; \<open>val\<close> is the text of the input field. The writes to the page
  (\<^verbatim>\<open>updateUI\<close>) and the timer that calls \<^verbatim>\<open>botMove\<close> 800 ms later are not part of the
  match state.
\<close>

definition playWord :: "jsstring list \<Rightarrow> jsstring \<Rightarrow> state \<Rightarrow> result \<times> state" where
  "playWord wordlist val s =
     (let input = trim val;
          normWord = normalizeInput input
      in if \<not> truthy (Str normWord) then (EmptyInput, s)
         else if \<not> includes_arr wordlist normWord then (UnknownWord, s)
         else if includes_arr (used s) normWord then (WordAlreadyUsed, s)
         else if truthy (lastLetter s) \<and> index0 normWord \<noteq> lastLetter s
           then (LetterMismatch (lastLetter s), s)
         else (PlayerPlayed normWord,
               s\<lparr>used := used s @ [normWord], lastLetter := Str (sliceLast normWord)\<rparr>))"

text \<open>\<^verbatim>\<open>wordlist.filter(w => w[0] === lastLetter && !used.includes(w))\<close>\<close>

definition candidates :: "jsstring list \<Rightarrow> state \<Rightarrow> jsstring list" where
  "candidates wordlist s =
     filter (\<lambda>w. index0 w = lastLetter s \<and> \<not> includes_arr (used s) w) wordlist"

text \<open>
  \<^verbatim>\<open>botMove\<close>; \<open>r\<close> is the value \<^verbatim>\<open>Math.random()\<close> returns. An index outside the array
  would read \<^verbatim>\<open>undefined\<close>, push it and throw a TypeError at \<^verbatim>\<open>botWord.slice\<close>; that
  branch is the error value here.
\<close>

definition botMove :: "jsstring list \<Rightarrow> double \<Rightarrow> state \<Rightarrow> jserror + result \<times> state" where
  "botMove wordlist r s =
     (let cands = candidates wordlist s
      in if length cands = 0 then Inr (PlayerWon, s)
         else
           let i = randomIndex r (length cands)
           in if i < length cands
              then let botWord = cands ! i
                   in Inr (BotPlayed botWord,
                           s\<lparr>used := used s @ [botWord],
                             lastLetter := Str (sliceLast botWord)\<rparr>)
              else Inl TypeError)"

subsection \<open>Runs of the game\<close>

text \<open>
  A run is any sequence of calls of the two functions, starting from the initial globals:
  the player submits the input field, or a timer calls \<^verbatim>\<open>botMove\<close>. An exception ends
  the run.
\<close>

datatype event = Submit jsstring | Bot double

fun run :: "jsstring list \<Rightarrow> event list \<Rightarrow> state \<Rightarrow> jserror + state" where
  "run wordlist [] s = Inr s"
| "run wordlist (Submit val # evs) s = run wordlist evs (snd (playWord wordlist val s))"
| "run wordlist (Bot r # evs) s =
     (case botMove wordlist r s of
        Inl e \<Rightarrow> Inl e
      | Inr (res, s') \<Rightarrow> run wordlist evs s')"

text \<open>Every \<^verbatim>\<open>Math.random()\<close> value of a run is a binary64 value in [0, 1).\<close>

fun randomOk :: "event \<Rightarrow> bool" where
  "randomOk (Submit val) = True"
| "randomOk (Bot r) = (isDouble r \<and> belowOne r)"

text \<open>Each word begins with the last code unit of the word before it.\<close>

fun chained :: "jsstring list \<Rightarrow> bool" where
  "chained (a # b # ws) = (index0 b = Str (sliceLast a) \<and> chained (b # ws))"
| "chained ws = True"

text \<open>
  What holds of the globals in every run: the played words are distinct entries of
  \<^verbatim>\<open>wordlist\<close>, none is empty, each begins with the last code unit of the one before, and
  \<^verbatim>\<open>lastLetter\<close> is \<^verbatim>\<open>null\<close> before the first move and the last code unit of the last
  word afterwards.
\<close>

definition matchInv :: "jsstring list \<Rightarrow> state \<Rightarrow> bool" where
  "matchInv wordlist s =
     (distinct (used s) \<and> list_all (includes_arr wordlist) (used s) \<and> chained (used s)
      \<and> \<not> includes_arr (used s) []
      \<and> lastLetter s = (if used s = [] then Null else Str (sliceLast (last (used s)))))"

text \<open>
  Modelled from the spec: \<^verbatim>\<open>wordlist.json\<close>, the file \<^verbatim>\<open>wordlist\<close> is loaded from, is
  missing. The spec's data model says of a vocabulary entry that its normalized form is
  ``lowercase, alphabetic characters only, all punctuation/spaces/hyphens stripped'';
  the script calls the file ``pre-mapped JSON (with {pretty, norm})'' and stores each
  \<^verbatim>\<open>norm\<close> as it is.
\<close>

definition normalizedWordlist :: "jsstring list \<Rightarrow> bool" where
  "normalizedWordlist wordlist = list_all (list_all isLowerAZ) wordlist"

subsection \<open>Concrete inputs\<close>

definition exampleWordlist :: "jsstring list" where
  "exampleWordlist =
     [ascii ''india'', ascii ''afghanistan'', ascii ''albania'', ascii ''australia'',
      ascii ''nepal'', ascii ''laos'']"

text \<open>The largest binary64 value below 1, \<open>1 - 2 ^ -53\<close>.\<close>

definition almostOne :: double where
  "almostOne = \<lparr>mant = 9007199254740991, expo = - 53\<rparr>"

text \<open>The globals after the player's ``India'' was accepted from the initial state.\<close>

definition afterIndia :: state where
  "afterIndia = \<lparr>used = [ascii ''india''], lastLetter = Str (ascii ''a'')\<rparr>"

text \<open>The globals after the bot answered ``India'' with ``australia''.\<close>

definition afterAustralia :: state where
  "afterAustralia =
     \<lparr>used = [ascii ''india'', ascii ''australia''], lastLetter = Str (ascii ''a'')\<rparr>"

text \<open>The globals after the bot was called once more and played ``albania''.\<close>

definition afterAlbania :: state where
  "afterAlbania =
     \<lparr>used = [ascii ''india'', ascii ''australia'', ascii ''albania''],
      lastLetter = Str (ascii ''a'')\<rparr>"

text \<open>
  The globals after the player played ``India'', ``afghanistan'', ``nepal'' and ``laos''
  with no bot move in between (the spec's end-to-end example).
\<close>

definition afterLaos :: state where
  "afterLaos =
     \<lparr>used = [ascii ''india'', ascii ''afghanistan'', ascii ''nepal'', ascii ''laos''],
      lastLetter = Str (ascii ''s'')\<rparr>"

section \<open>Properties of normalization\<close>

lemma normalizeInput_Nil: "normalizeInput [] = []"
  by (simp add: normalizeInput_def toLowerCase_def removeNonAZ_def)

lemma normalizeInput_Cons: "normalizeInput (c # cs) = removeNonAZ (lowerUnit c) @ normalizeInput cs"
  by (simp add: normalizeInput_def toLowerCase_def removeNonAZ_def)

lemma normalizeInput_append: "normalizeInput (xs @ ys) = normalizeInput xs @ normalizeInput ys"
  by (simp add: normalizeInput_def toLowerCase_def removeNonAZ_def)

lemma normalizeInput_lower: "c \<in> set (normalizeInput x) \<Longrightarrow> isLowerAZ c"
  by (simp add: normalizeInput_def removeNonAZ_def)

lemma lowerUnit_lower: "isLowerAZ c \<Longrightarrow> lowerUnit c = [c]"
  by (auto simp: lowerUnit_def isLowerAZ_def isUpperAZ_def word_le_nat_alt)

lemma normalizeInput_fixed: "\<forall>c \<in> set y. isLowerAZ c \<Longrightarrow> normalizeInput y = y"
  by (induction y) (simp_all add: normalizeInput_Nil normalizeInput_Cons lowerUnit_lower removeNonAZ_def)

lemma normUnit_short: "length (removeNonAZ (lowerUnit c)) \<le> 1"
  by (simp add: lowerUnit_def removeNonAZ_def isLowerAZ_def)

lemma white_not_letter:
  "isWhiteSpace c \<Longrightarrow> \<not> isUpperAZ c \<and> \<not> isLowerAZ c \<and> c \<noteq> 0x130 \<and> c \<noteq> 0x212A"
  by (auto simp: isLowerAZ_def isUpperAZ_def isWhiteSpace_def word_le_nat_alt)

lemma normUnit_white: "isWhiteSpace c \<Longrightarrow> removeNonAZ (lowerUnit c) = []"
  using white_not_letter [of c] by (simp add: lowerUnit_def removeNonAZ_def)

lemma normalizeInput_rev: "normalizeInput (rev xs) = rev (normalizeInput xs)"
proof (induction xs)
  case Nil
  show ?case by (simp add: normalizeInput_Nil)
next
  case (Cons c cs)
  have "rev (removeNonAZ (lowerUnit c)) = removeNonAZ (lowerUnit c)"
    using normUnit_short [of c] by (cases "removeNonAZ (lowerUnit c)") auto
  with Cons show ?case
    by (simp add: normalizeInput_append normalizeInput_Cons normalizeInput_Nil)
qed

lemma normalizeInput_dropWhile:
  "normalizeInput (dropWhile isWhiteSpace xs) = normalizeInput xs"
  by (induction xs) (simp_all add: normalizeInput_Cons normUnit_white)

lemma normalizeInput_trim: "normalizeInput (trim x) = normalizeInput x"
  by (simp add: trim_def normalizeInput_rev normalizeInput_dropWhile)

section \<open>The random index is in range\<close>

lemma bitlen_large:
  assumes "2 ^ 53 \<le> (m::nat)"
  defines "k \<equiv> nat (bitlen (int m) - 53)"
  shows "1 \<le> k" and "2 ^ (k + 52) \<le> m"
proof -
  have pos: "0 < int m" using assms(1) by (simp add: less_le_trans [of 0 "2 ^ 53"])
  from bitlen_bounds [OF pos]
  have lo: "2 ^ nat (bitlen (int m) - 1) \<le> int m" and hi: "int m < 2 ^ nat (bitlen (int m))"
    by simp_all
  have "(2::int) ^ 53 \<le> int m" using assms(1) by (metis of_nat_le_iff of_nat_numeral of_nat_power)
  with hi have "(2::int) ^ 53 < 2 ^ nat (bitlen (int m))" by linarith
  from power_less_imp_less_exp [OF _ this] have "53 < nat (bitlen (int m))" by simp
  then have b: "54 \<le> bitlen (int m)" by linarith
  then show "1 \<le> k" by (simp add: k_def)
  have "nat (bitlen (int m) - 1) = k + 52" using b by (simp add: k_def)
  with lo have "(2::int) ^ (k + 52) \<le> int m" by simp
  then show "2 ^ (k + 52) \<le> m" by (metis of_nat_le_iff of_nat_numeral of_nat_power)
qed

lemma roundDouble_small: "m < 2 ^ 53 \<Longrightarrow> roundDouble m e = \<lparr>mant = m, expo = e\<rparr>"
  by (simp add: roundDouble_def)

lemma roundDouble_large:
  assumes "2 ^ 53 \<le> (m::nat)"
  defines "k \<equiv> nat (bitlen (int m) - 53)"
  shows "expo (roundDouble m e) = e + int k"
    and "mant (roundDouble m e) * 2 ^ k \<le> m + 2 ^ (k - 1)"
proof -
  have nl: "\<not> m < 2 ^ 53" using assms(1) by simp
  show "expo (roundDouble m e) = e + int k"
    using nl by (simp add: roundDouble_def Let_def k_def)
  have k1: "1 \<le> k" using bitlen_large(1) [OF assms(1)] by (simp add: k_def)
  then have two: "(2::nat) ^ k = 2 ^ (k - 1) + 2 ^ (k - 1)"
    by (cases k) simp_all
  have split: "m = m div 2 ^ k * 2 ^ k + m mod 2 ^ k" by (rule div_mult_mod_eq [symmetric])
  let ?q = "m div 2 ^ k" and ?lost = "m mod 2 ^ k" and ?half = "(2::nat) ^ (k - 1)"
  have mant: "mant (roundDouble m e) = (if ?half < ?lost \<or> (?lost = ?half \<and> odd ?q) then ?q + 1 else ?q)"
    using nl by (simp add: roundDouble_def Let_def k_def)
  show "mant (roundDouble m e) * 2 ^ k \<le> m + 2 ^ (k - 1)"
  proof (cases "?half < ?lost \<or> (?lost = ?half \<and> odd ?q)")
    case True
    then have "?half \<le> ?lost" by auto
    have "(?q + 1) * 2 ^ k = ?q * 2 ^ k + ?half + ?half" using two by (simp add: algebra_simps)
    also have "\<dots> \<le> ?q * 2 ^ k + ?lost + ?half" using \<open>?half \<le> ?lost\<close> by simp
    also have "\<dots> = m + ?half" using split by simp
    finally show ?thesis using True mant by simp
  next
    case False
    from False mant have "mant (roundDouble m e) = ?q" by auto
    moreover have "?q * 2 ^ k \<le> m + ?half"
      by (rule trans_le_add1) (rule div_times_less_eq_dividend)
    ultimately show ?thesis by (simp only:)
  qed
qed

lemma belowOne_scaled:
  assumes "mant r < 2 ^ 53" "belowOne r" "0 < mant r"
  defines "j \<equiv> nat (- expo r)"
  shows "expo r < 0" and "mant r < 2 ^ j" and "mant r * 2 ^ 53 + mant r < 2 ^ (j + 53)"
proof -
  show neg: "expo r < 0" using assms(2,3) by (auto simp: belowOne_def split: if_splits)
  then show lt: "mant r < 2 ^ j" using assms(2) by (simp add: belowOne_def j_def)
  then have "(mant r + 1) * 2 ^ 53 \<le> 2 ^ j * 2 ^ 53"
    by (intro mult_le_mono1) simp
  then have "mant r * 2 ^ 53 + 2 ^ 53 \<le> 2 ^ (j + 53)"
    by (simp add: algebra_simps power_add)
  with assms(1) show "mant r * 2 ^ 53 + mant r < 2 ^ (j + 53)" by linarith
qed

lemma randomIndex_less:
  assumes d: "isDouble r" and b: "belowOne r" and n: "0 < n"
  shows "randomIndex r n < n"
proof (cases "mant r * n < 2 ^ 53")
  case True
  then have eq: "randomIndex r n = floorDouble \<lparr>mant = mant r * n, expo = expo r\<rparr>"
    by (simp add: randomIndex_def mulLength_def roundDouble_small)
  show ?thesis
  proof (cases "0 \<le> expo r")
    case True
    then have "mant r = 0" using b by (simp add: belowOne_def)
    then show ?thesis using n eq by (simp add: floorDouble_def)
  next
    case False
    then have "mant r < 2 ^ nat (- expo r)" using b by (simp add: belowOne_def)
    then have "mant r * n < n * 2 ^ nat (- expo r)" using n by (simp add: mult.commute)
    then have "mant r * n div 2 ^ nat (- expo r) < n"
      by (simp add: less_mult_imp_div_less)
    then show ?thesis using False eq by (simp add: floorDouble_def)
  qed
next
  case False
  define m where "m = mant r * n"
  define k where "k = nat (bitlen (int m) - 53)"
  define j where "j = nat (- expo r)"
  have big: "2 ^ 53 \<le> m" using False by (simp add: m_def)
  have mpos: "0 < mant r" using big by (cases "mant r = 0") (simp_all add: m_def)
  have m53: "mant r < 2 ^ 53" using d by (simp add: isDouble_def)
  note bo = belowOne_scaled [OF m53 b mpos, folded j_def]
  note bl = bitlen_large [OF big, folded k_def]
  note rd = roundDouble_large [OF big, folded k_def, of "expo r"]
  define q where "q = mant (roundDouble m (expo r))"
  have "53 + (k - 1) = k + 52" using bl(1) by simp
  then have "(2::nat) ^ 53 * 2 ^ (k - 1) = 2 ^ (k + 52)" by (simp only: flip: power_add)
  then have "2 ^ 53 * (m + 2 ^ (k - 1)) = 2 ^ 53 * m + 2 ^ (k + 52)"
    by (simp only: distrib_left)
  also have "\<dots> \<le> 2 ^ 53 * m + m" using bl(2) by simp
  also have "\<dots> = n * (mant r * 2 ^ 53 + mant r)" by (simp add: m_def algebra_simps)
  also have "\<dots> < n * 2 ^ (j + 53)" using bo(3) n by simp
  also have "\<dots> = 2 ^ 53 * (n * 2 ^ j)" by (simp add: power_add)
  finally have "m + 2 ^ (k - 1) < n * 2 ^ j" by simp
  with rd(2) have key: "q * 2 ^ k < n * 2 ^ j" by (simp add: q_def)
  have ex: "expo (roundDouble m (expo r)) = int k - int j"
    using rd(1) bo(1) by (simp add: j_def)
  have fl: "randomIndex r n = (if j \<le> k then q * 2 ^ (k - j) else q div 2 ^ (j - k))"
    using ex by (simp add: randomIndex_def mulLength_def floorDouble_def q_def m_def nat_diff_distrib')
  show ?thesis
  proof (cases "j \<le> k")
    case True
    then have "(2::nat) ^ (k - j) * 2 ^ j = 2 ^ k" by (simp flip: power_add)
    then have eq: "q * 2 ^ (k - j) * 2 ^ j = q * 2 ^ k" by (simp only: mult.assoc)
    have "q * 2 ^ (k - j) * 2 ^ j < n * 2 ^ j" unfolding eq by (rule key)
    then have "q * 2 ^ (k - j) < n" by simp
    then show ?thesis using True fl by simp
  next
    case False
    then have "(2::nat) ^ (j - k) * 2 ^ k = 2 ^ j" by (simp flip: power_add)
    then have eq: "n * 2 ^ (j - k) * 2 ^ k = n * 2 ^ j" by (simp only: mult.assoc)
    have "q * 2 ^ k < n * 2 ^ (j - k) * 2 ^ k" unfolding eq by (rule key)
    then have "q < n * 2 ^ (j - k)" by simp
    then have "q div 2 ^ (j - k) < n" by (simp add: less_mult_imp_div_less)
    then show ?thesis using False fl by simp
  qed
qed

section \<open>The two moves and the invariant of a run\<close>

lemma playWord_eq:
  "playWord wl v s =
     (let n = normalizeInput v
      in if n = [] then (EmptyInput, s)
         else if n \<notin> set wl then (UnknownWord, s)
         else if n \<in> set (used s) then (WordAlreadyUsed, s)
         else if truthy (lastLetter s) \<and> index0 n \<noteq> lastLetter s
           then (LetterMismatch (lastLetter s), s)
         else (PlayerPlayed n, s\<lparr>used := used s @ [n], lastLetter := Str (sliceLast n)\<rparr>))"
  by (simp add: playWord_def Let_def normalizeInput_trim includes_arr_def)

lemma set_candidates:
  "set (candidates wl s) = {w \<in> set wl. index0 w = lastLetter s \<and> w \<notin> set (used s)}"
  by (auto simp: candidates_def includes_arr_def)

lemma botMove_stuck: "candidates wl s = [] \<Longrightarrow> botMove wl r s = Inr (PlayerWon, s)"
  by (simp add: botMove_def)

lemma botMove_played:
  assumes "isDouble r" "belowOne r" "candidates wl s \<noteq> []"
  defines "w \<equiv> candidates wl s ! randomIndex r (length (candidates wl s))"
  shows "botMove wl r s =
           Inr (BotPlayed w, s\<lparr>used := used s @ [w], lastLetter := Str (sliceLast w)\<rparr>)"
    and "w \<in> set (candidates wl s)"
proof -
  have i: "randomIndex r (length (candidates wl s)) < length (candidates wl s)"
    using assms(1-3) by (intro randomIndex_less) simp_all
  then show "w \<in> set (candidates wl s)" by (simp add: w_def)
  show "botMove wl r s =
           Inr (BotPlayed w, s\<lparr>used := used s @ [w], lastLetter := Str (sliceLast w)\<rparr>)"
    using i assms(3) by (simp add: botMove_def Let_def w_def)
qed

lemma botMove_Inr:
  assumes "botMove wl r s = Inr (res, s')"
  shows "(candidates wl s = [] \<and> res = PlayerWon \<and> s' = s)
       \<or> (\<exists>w \<in> set (candidates wl s). res = BotPlayed w
             \<and> s' = s\<lparr>used := used s @ [w], lastLetter := Str (sliceLast w)\<rparr>)"
  using assms by (auto simp: botMove_def Let_def split: if_splits)

lemma chained_snoc:
  "chained (ws @ [w]) = (chained ws \<and> (ws \<noteq> [] \<longrightarrow> index0 w = Str (sliceLast (last ws))))"
  by (induction ws rule: chained.induct) auto

lemma matchInv_initial: "matchInv wl initial"
  by (simp add: matchInv_def initial_def includes_arr_def)

lemma matchInv_snoc:
  assumes "matchInv wl s" "w \<in> set wl" "w \<notin> set (used s)" "w \<noteq> []"
    and "used s \<noteq> [] \<Longrightarrow> index0 w = lastLetter s"
  shows "matchInv wl (s\<lparr>used := used s @ [w], lastLetter := Str (sliceLast w)\<rparr>)"
  using assms by (auto simp: matchInv_def includes_arr_def chained_snoc list_all_iff)

lemma matchInv_last:
  assumes "matchInv wl s" "used s \<noteq> []"
  shows "last (used s) \<noteq> []" and "lastLetter s = Str [last (last (used s))]"
proof -
  have "last (used s) \<in> set (used s)" using assms(2) by (rule last_in_set)
  then show "last (used s) \<noteq> []" using assms(1) by (auto simp: matchInv_def includes_arr_def)
  then show "lastLetter s = Str [last (last (used s))]"
    using assms by (simp add: matchInv_def sliceLast_def)
qed

lemma matchInv_truthy: "matchInv wl s \<Longrightarrow> truthy (lastLetter s) = (used s \<noteq> [])"
  using matchInv_last(2) [of wl s] by (cases "used s = []") (simp_all add: matchInv_def)

lemma matchInv_playWord:
  assumes "matchInv wl s"
  shows "matchInv wl (snd (playWord wl v s))"
proof (cases "\<exists>w. fst (playWord wl v s) = PlayerPlayed w")
  case True
  then have n: "normalizeInput v \<noteq> []" "normalizeInput v \<in> set wl"
    "normalizeInput v \<notin> set (used s)"
    "\<not> (truthy (lastLetter s) \<and> index0 (normalizeInput v) \<noteq> lastLetter s)"
    and s': "snd (playWord wl v s) =
      s\<lparr>used := used s @ [normalizeInput v], lastLetter := Str (sliceLast (normalizeInput v))\<rparr>"
    by (auto simp: playWord_eq Let_def split: if_splits)
  from n(4) have "used s \<noteq> [] \<Longrightarrow> index0 (normalizeInput v) = lastLetter s"
    by (simp add: matchInv_truthy [OF assms])
  with assms n(1-3) show ?thesis unfolding s' by (intro matchInv_snoc)
next
  case False
  then have "snd (playWord wl v s) = s"
    by (auto simp: playWord_eq Let_def split: if_splits)
  with assms show ?thesis by simp
qed

lemma matchInv_botMove:
  assumes "matchInv wl s" "botMove wl r s = Inr (res, s')"
  shows "matchInv wl s'"
proof -
  from botMove_Inr [OF assms(2)] show ?thesis
  proof (elim disjE conjE bexE)
    assume "s' = s" then show ?thesis using assms(1) by simp
  next
    fix w assume w: "w \<in> set (candidates wl s)"
      and s': "s' = s\<lparr>used := used s @ [w], lastLetter := Str (sliceLast w)\<rparr>"
    from w have a: "w \<in> set wl" "index0 w = lastLetter s" "w \<notin> set (used s)"
      by (simp_all add: set_candidates)
    have "w \<noteq> []"
    proof
      assume "w = []"
      with a(2) have "lastLetter s = Undefined" by simp
      with assms(1) show False by (simp add: matchInv_def split: if_splits)
    qed
    with a assms(1) show ?thesis unfolding s' by (intro matchInv_snoc) simp_all
  qed
qed

lemma matchInv_run: "matchInv wl s \<Longrightarrow> run wl evs s = Inr s' \<Longrightarrow> matchInv wl s'"
proof (induction evs arbitrary: s)
  case Nil
  then show ?case by simp
next
  case (Cons ev evs)
  show ?case
  proof (cases ev)
    case (Submit v)
    with Cons.prems have "run wl evs (snd (playWord wl v s)) = Inr s'" by simp
    with Cons.IH [OF matchInv_playWord [OF Cons.prems(1)]] show ?thesis by simp
  next
    case (Bot r)
    with Cons.prems obtain res s1 where b: "botMove wl r s = Inr (res, s1)"
      and r: "run wl evs s1 = Inr s'"
      by (auto split: sum.splits)
    from Cons.IH [OF matchInv_botMove [OF Cons.prems(1) b] r] show ?thesis .
  qed
qed

lemma run_total: "list_all randomOk evs \<Longrightarrow> \<exists>s'. run wl evs s = Inr s'"
proof (induction evs arbitrary: s)
  case Nil
  show ?case by simp
next
  case (Cons ev evs)
  show ?case
  proof (cases ev)
    case (Submit v)
    with Cons show ?thesis by simp
  next
    case (Bot r)
    with Cons.prems have ok: "isDouble r" "belowOne r" and rest: "list_all randomOk evs" by simp_all
    show ?thesis
    proof (cases "candidates wl s = []")
      case True
      with Cons.IH [OF rest, of s] Bot show ?thesis by (simp add: botMove_stuck)
    next
      case False
      from botMove_played(1) [OF ok False] Cons.IH [OF rest] Bot show ?thesis by simp
    qed
  qed
qed

lemma matchInv_reach: "run wl evs initial = Inr s \<Longrightarrow> matchInv wl s"
  by (rule matchInv_run [OF matchInv_initial])

lemma candidates_nonempty_word:
  assumes "matchInv wl s" "w \<in> set (candidates wl s)"
  shows "w \<noteq> []" and "index0 w = lastLetter s" and "used s \<noteq> []"
proof -
  from assms(2) show i: "index0 w = lastLetter s" by (simp add: set_candidates)
  show "w \<noteq> []"
  proof
    assume "w = []"
    with i have "lastLetter s = Undefined" by simp
    with assms(1) show False by (simp add: matchInv_def split: if_splits)
  qed
  show "used s \<noteq> []"
  proof
    assume "used s = []"
    with assms(1) have "lastLetter s = Null" by (simp add: matchInv_def)
    with i show False by (cases w) simp_all
  qed
qed

text \<open>
  A state with a required letter and no candidate is final: \<^verbatim>\<open>playWord\<close> accepts only an
  unused entry of the word list that begins with the required letter, which would be a
  candidate.
\<close>

lemma stuck_playWord:
  assumes "truthy (lastLetter s)" and "candidates wl s = []"
  shows "snd (playWord wl v s) = s"
proof (rule ccontr)
  assume c: "snd (playWord wl v s) \<noteq> s"
  then have n: "normalizeInput v \<in> set wl" "normalizeInput v \<notin> set (used s)"
    "\<not> (truthy (lastLetter s) \<and> index0 (normalizeInput v) \<noteq> lastLetter s)"
    by (auto simp: playWord_eq Let_def split: if_splits)
  from n(3) assms(1) have "index0 (normalizeInput v) = lastLetter s" by simp
  with n(1,2) have "normalizeInput v \<in> set (candidates wl s)" by (simp add: set_candidates)
  with assms(2) show False by simp
qed

lemma stuck_run:
  assumes "truthy (lastLetter s)" and "candidates wl s = []"
  shows "run wl evs s = Inr s"
proof (induction evs)
  case Nil
  show ?case by simp
next
  case (Cons ev evs)
  show ?case
  proof (cases ev)
    case (Submit v)
    with Cons stuck_playWord [OF assms] show ?thesis by simp
  next
    case (Bot r)
    with Cons botMove_stuck [OF assms(2)] show ?thesis by simp
  qed
qed

section \<open>Concrete runs\<close>

lemma run_India: "run exampleWordlist [Submit (ascii ''India'')] initial = Inr afterIndia"
  by code_simp

lemma run_four:
  "run exampleWordlist
     [Submit (ascii ''India''), Submit (ascii ''afghanistan''), Submit (ascii ''nepal''),
      Submit (ascii ''laos'')] initial = Inr afterLaos"
  by code_simp

lemma almostOne_ok: "isDouble almostOne" "belowOne almostOne"
  by (simp_all add: isDouble_def belowOne_def almostOne_def)

lemma randomIndex_almostOne_3: "randomIndex almostOne 3 = 2"
  by (simp add: randomIndex_def mulLength_def roundDouble_def floorDouble_def almostOne_def
      Let_def compute_bitlen)

lemma randomIndex_almostOne_2: "randomIndex almostOne 2 = 1"
  by (simp add: randomIndex_def mulLength_def roundDouble_def floorDouble_def almostOne_def
      Let_def compute_bitlen)

lemma candidates_afterIndia:
  "candidates exampleWordlist afterIndia =
     [ascii ''afghanistan'', ascii ''albania'', ascii ''australia'']"
  by code_simp

lemma candidates_afterAustralia:
  "candidates exampleWordlist afterAustralia = [ascii ''afghanistan'', ascii ''albania'']"
  by code_simp

lemma candidates_afterLaos: "candidates exampleWordlist afterLaos = []"
  by code_simp

lemma push_australia:
  "afterIndia\<lparr>used := used afterIndia @ [ascii ''australia''],
     lastLetter := Str (sliceLast (ascii ''australia''))\<rparr> = afterAustralia"
  by code_simp

lemma push_albania:
  "afterAustralia\<lparr>used := used afterAustralia @ [ascii ''albania''],
     lastLetter := Str (sliceLast (ascii ''albania''))\<rparr> = afterAlbania"
  by code_simp

lemma botMove_afterIndia:
  "botMove exampleWordlist almostOne afterIndia =
     Inr (BotPlayed (ascii ''australia''), afterAustralia)"
proof -
  have l: "length (candidates exampleWordlist afterIndia) = 3"
    by (simp add: candidates_afterIndia)
  show ?thesis
    by (simp only: botMove_def Let_def l randomIndex_almostOne_3)
      (simp add: candidates_afterIndia push_australia)
qed

lemma botMove_afterAustralia:
  "botMove exampleWordlist almostOne afterAustralia =
     Inr (BotPlayed (ascii ''albania''), afterAlbania)"
proof -
  have l: "length (candidates exampleWordlist afterAustralia) = 2"
    by (simp add: candidates_afterAustralia)
  show ?thesis
    by (simp only: botMove_def Let_def l randomIndex_almostOne_2)
      (simp add: candidates_afterAustralia push_albania)
qed

lemma run_India_bot:
  "run exampleWordlist [Submit (ascii ''India''), Bot almostOne] initial = Inr afterAustralia"
proof -
  have "snd (playWord exampleWordlist (ascii ''India'') initial) = afterIndia"
    by code_simp
  then show ?thesis by (simp add: botMove_afterIndia)
qed

lemma used_afterAustralia: "used afterAustralia = [ascii ''india'', ascii ''australia'']"
  by (simp add: afterAustralia_def)

lemma playWord_Albania_afterAustralia:
  "playWord exampleWordlist (ascii ''Albania'') afterAustralia
     = (PlayerPlayed (ascii ''albania''), afterAlbania)"
  by code_simp

lemma used_afterAustralia_ne: "used afterAustralia \<noteq> []"
  by (simp add: afterAustralia_def)

lemma run_Nil_initial: "run exampleWordlist [] initial = Inr initial"
  by simp

lemma run_bot_India:
  "run exampleWordlist [Bot almostOne, Submit (ascii ''India'')] initial = Inr afterIndia"
proof -
  have "candidates exampleWordlist initial = []" by code_simp
  then have "botMove exampleWordlist almostOne initial = Inr (PlayerWon, initial)"
    by (rule botMove_stuck)
  moreover have "snd (playWord exampleWordlist (ascii ''India'') initial) = afterIndia"
    by code_simp
  ultimately show ?thesis by simp
qed

text \<open>
  A win reported before the first move does not end the game: the player's ``India'' is
  accepted afterwards, and the next \<^verbatim>\<open>botMove\<close> plays a word.
\<close>

lemma botMove_early_win_example:
  "botMove exampleWordlist almostOne initial = Inr (PlayerWon, initial)
   \<and> run exampleWordlist [Bot almostOne, Submit (ascii ''India'')] initial = Inr afterIndia
   \<and> botMove exampleWordlist almostOne afterIndia
        = Inr (BotPlayed (ascii ''australia''), afterAustralia)
   \<and> used afterAustralia \<noteq> used afterIndia"
proof -
  have "candidates exampleWordlist initial = []" by code_simp
  then have a: "botMove exampleWordlist almostOne initial = Inr (PlayerWon, initial)"
    by (rule botMove_stuck)
  have "used afterAustralia \<noteq> used afterIndia"
    by (simp add: afterAustralia_def afterIndia_def)
  with a run_bot_India botMove_afterIndia show ?thesis by (intro conjI)
qed

section \<open>The claims\<close>



text \<open>
  C8. Normalization is idempotent: normalizing a normalized string changes nothing.
\<close>

theorem normalizeInput_idempotent: "normalizeInput (normalizeInput x) = normalizeInput x"
  by (rule normalizeInput_fixed) (simp add: normalizeInput_lower)

text \<open>
  C1. In every run (any sequence of \<^verbatim>\<open>playWord\<close> and \<^verbatim>\<open>botMove\<close> calls from the initial
  globals), \<^verbatim>\<open>used\<close> has no duplicates (its set has as many elements as the list), every
  word in it is an entry of \<^verbatim>\<open>wordlist\<close>, and every word after the first begins with the
  required letter in force when it was played: each word begins with the last code unit
  of the word before it, and a move accepted next, by the player after the first move or
  by the bot, begins with the current \<^verbatim>\<open>lastLetter\<close>.
\<close>
theorem run_invariant:
  assumes "run wl evs initial = Inr s"
  shows "distinct (used s) \<and> card (set (used s)) = length (used s)
     \<and> set (used s) \<subseteq> set wl \<and> chained (used s)
     \<and> (used s \<noteq> [] \<and> playWord wl v s = (PlayerPlayed w, s') \<longrightarrow> index0 w = lastLetter s)
     \<and> (botMove wl r s = Inr (BotPlayed w', s'') \<longrightarrow> index0 w' = lastLetter s)"
proof -
  have inv: "matchInv wl s" using assms by (rule matchInv_reach)
  then have d: "distinct (used s)" and sub: "set (used s) \<subseteq> set wl" and ch: "chained (used s)"
    by (auto simp: matchInv_def list_all_iff includes_arr_def)
  have p: "used s \<noteq> [] \<and> playWord wl v s = (PlayerPlayed w, s') \<longrightarrow> index0 w = lastLetter s"
    using matchInv_truthy [OF inv] by (auto simp: playWord_eq Let_def split: if_splits)
  have b: "botMove wl r s = Inr (BotPlayed w', s'') \<longrightarrow> index0 w' = lastLetter s"
    by (auto dest!: botMove_Inr simp: set_candidates)
  from d sub ch p b show ?thesis by (simp add: distinct_card)
qed

theorem run_invariant_witness:
  "run exampleWordlist [Submit (ascii ''India''), Bot almostOne] initial = Inr afterAustralia
   \<and> used afterAustralia = [ascii ''india'', ascii ''australia'']
   \<and> distinct (used afterAustralia)
   \<and> card (set (used afterAustralia)) = length (used afterAustralia)
   \<and> set (used afterAustralia) \<subseteq> set exampleWordlist
   \<and> chained (used afterAustralia)
   \<and> playWord exampleWordlist (ascii ''Albania'') afterAustralia
        = (PlayerPlayed (ascii ''albania''), afterAlbania)
   \<and> botMove exampleWordlist almostOne afterAustralia
        = Inr (BotPlayed (ascii ''albania''), afterAlbania)
   \<and> index0 (ascii ''albania'') = lastLetter afterAustralia"
proof -
  note t = run_invariant [OF run_India_bot, of "ascii ''Albania''" "ascii ''albania''"
      afterAlbania almostOne "ascii ''albania''" afterAlbania]
  from t have "distinct (used afterAustralia)" by (rule conjunct1)
  moreover from t have "card (set (used afterAustralia)) = length (used afterAustralia)"
    by (rule conjunct2 [THEN conjunct1])
  moreover from t have "set (used afterAustralia) \<subseteq> set exampleWordlist" by blast
  moreover from t have "chained (used afterAustralia)" by blast
  moreover from t used_afterAustralia_ne playWord_Albania_afterAustralia
  have "index0 (ascii ''albania'') = lastLetter afterAustralia" by blast
  moreover from t botMove_afterAustralia
  have "index0 (ascii ''albania'') = lastLetter afterAustralia" by blast
  ultimately show ?thesis
    using run_India_bot botMove_afterAustralia used_afterAustralia
      playWord_Albania_afterAustralia by (intro conjI)
qed

text \<open>
  C2. For every input and every match state, when \<^verbatim>\<open>playWord\<close> rejects the input it
  leaves \<^verbatim>\<open>used\<close> and \<^verbatim>\<open>lastLetter\<close> exactly as they were, and the result it reports is
  one of four different kinds, each telling which check failed: empty after
  normalization, not in the word list, already used, or wrong first letter.
\<close>
theorem playWord_rejects:
  assumes "playWord wl v s = (res, s')" and "\<forall>w. res \<noteq> PlayerPlayed w"
  shows "s' = s
    \<and> (res = EmptyInput \<or> res = UnknownWord \<or> res = WordAlreadyUsed
        \<or> res = LetterMismatch (lastLetter s))
    \<and> (res = EmptyInput \<longleftrightarrow> normalizeInput v = [])
    \<and> (res = UnknownWord \<longleftrightarrow> normalizeInput v \<noteq> [] \<and> normalizeInput v \<notin> set wl)
    \<and> (res = WordAlreadyUsed \<longleftrightarrow>
          normalizeInput v \<noteq> [] \<and> normalizeInput v \<in> set wl \<and> normalizeInput v \<in> set (used s))
    \<and> (res = LetterMismatch (lastLetter s) \<longleftrightarrow>
          normalizeInput v \<noteq> [] \<and> normalizeInput v \<in> set wl \<and> normalizeInput v \<notin> set (used s)
          \<and> truthy (lastLetter s) \<and> index0 (normalizeInput v) \<noteq> lastLetter s)"
  using assms by (auto simp: playWord_eq Let_def split: if_splits)

theorem playWord_rejects_witness:
  "playWord exampleWordlist (ascii ''India'') afterIndia = (WordAlreadyUsed, afterIndia)
   \<and> normalizeInput (ascii ''India'') \<in> set (used afterIndia)"
proof -
  have p: "playWord exampleWordlist (ascii ''India'') afterIndia = (WordAlreadyUsed, afterIndia)"
    by code_simp
  have "\<forall>w. WordAlreadyUsed \<noteq> PlayerPlayed w" by simp
  from playWord_rejects [OF p this] show ?thesis using p by simp
qed

text \<open>
  C3. For every match state with a required letter, the bot's candidates are the entries
  of \<^verbatim>\<open>wordlist\<close> whose first code unit is the required letter, minus the words already
  played. If there is none, \<^verbatim>\<open>botMove\<close> reports that the player won and changes
  nothing; otherwise it plays a word from the candidates.
\<close>
theorem botMove_candidates:
  assumes "lastLetter s = Str [c]" and "isDouble r" and "belowOne r"
  shows "set (candidates wl s) = {w \<in> set wl. w \<noteq> [] \<and> hd w = c} - set (used s)
    \<and> (candidates wl s = [] \<longrightarrow> botMove wl r s = Inr (PlayerWon, s))
    \<and> (candidates wl s \<noteq> [] \<longrightarrow>
         (\<exists>w \<in> set (candidates wl s).
            botMove wl r s =
              Inr (BotPlayed w, s\<lparr>used := used s @ [w], lastLetter := Str (sliceLast w)\<rparr>)))"
proof -
  have i: "index0 w = Str [c] \<longleftrightarrow> w \<noteq> [] \<and> hd w = c" for w
    by (cases w) auto
  have "set (candidates wl s) = {w \<in> set wl. w \<noteq> [] \<and> hd w = c} - set (used s)"
    using assms(1) by (auto simp: set_candidates i)
  moreover have "candidates wl s = [] \<longrightarrow> botMove wl r s = Inr (PlayerWon, s)"
    by (simp add: botMove_stuck)
  moreover have "candidates wl s \<noteq> [] \<longrightarrow>
         (\<exists>w \<in> set (candidates wl s).
            botMove wl r s =
              Inr (BotPlayed w, s\<lparr>used := used s @ [w], lastLetter := Str (sliceLast w)\<rparr>))"
    using botMove_played [OF assms(2,3), of wl s] by blast
  ultimately show ?thesis by (intro conjI)
qed

theorem botMove_candidates_witness:
  "run exampleWordlist
     [Submit (ascii ''India''), Submit (ascii ''afghanistan''), Submit (ascii ''nepal''),
      Submit (ascii ''laos'')] initial = Inr afterLaos
   \<and> lastLetter afterLaos = Str [0x73] \<and> isDouble almostOne \<and> belowOne almostOne
   \<and> candidates exampleWordlist afterLaos = []
   \<and> botMove exampleWordlist almostOne afterLaos = Inr (PlayerWon, afterLaos)
   \<and> lastLetter afterIndia = Str [0x61]
   \<and> candidates exampleWordlist afterIndia
       = [ascii ''afghanistan'', ascii ''albania'', ascii ''australia'']
   \<and> set (candidates exampleWordlist afterIndia)
       = {w \<in> set exampleWordlist. w \<noteq> [] \<and> hd w = 0x61} - set (used afterIndia)
   \<and> (\<exists>w \<in> set (candidates exampleWordlist afterIndia).
         botMove exampleWordlist almostOne afterIndia =
           Inr (BotPlayed w,
                afterIndia\<lparr>used := used afterIndia @ [w], lastLetter := Str (sliceLast w)\<rparr>))"
proof -
  have l: "lastLetter afterLaos = Str [0x73]" by code_simp
  have l': "lastLetter afterIndia = Str [0x61]" by code_simp
  have ne: "candidates exampleWordlist afterIndia \<noteq> []" by (simp add: candidates_afterIndia)
  from botMove_candidates [OF l almostOne_ok, of exampleWordlist] candidates_afterLaos
  have a: "botMove exampleWordlist almostOne afterLaos = Inr (PlayerWon, afterLaos)" by blast
  note t = botMove_candidates [OF l' almostOne_ok, of exampleWordlist]
  from t have b: "set (candidates exampleWordlist afterIndia)
       = {w \<in> set exampleWordlist. w \<noteq> [] \<and> hd w = 0x61} - set (used afterIndia)"
    by (rule conjunct1)
  from t ne have c: "\<exists>w \<in> set (candidates exampleWordlist afterIndia).
         botMove exampleWordlist almostOne afterIndia =
           Inr (BotPlayed w,
                afterIndia\<lparr>used := used afterIndia @ [w], lastLetter := Str (sliceLast w)\<rparr>)"
    by blast
  from run_four l almostOne_ok candidates_afterLaos a l' candidates_afterIndia b c
  show ?thesis by (intro conjI)
qed

text \<open>
  C9. Whenever the bot has a candidate, the index
  \<^verbatim>\<open>Math.floor(Math.random() * candidates.length)\<close>, computed in binary64 arithmetic from
  a random value in [0, 1), is below \<^verbatim>\<open>candidates.length\<close>: the word selected is an
  element of the candidates, never \<^verbatim>\<open>undefined\<close>, and \<^verbatim>\<open>botMove\<close> does not throw.
\<close>
theorem randomIndex_in_bounds:
  assumes "isDouble r" and "belowOne r" and "candidates wl s \<noteq> []"
  shows "randomIndex r (length (candidates wl s)) < length (candidates wl s)
    \<and> candidates wl s ! randomIndex r (length (candidates wl s)) \<in> set (candidates wl s)
    \<and> botMove wl r s =
        Inr (BotPlayed (candidates wl s ! randomIndex r (length (candidates wl s))),
             s\<lparr>used := used s @ [candidates wl s ! randomIndex r (length (candidates wl s))],
               lastLetter :=
                 Str (sliceLast (candidates wl s ! randomIndex r (length (candidates wl s))))\<rparr>)"
proof -
  have "randomIndex r (length (candidates wl s)) < length (candidates wl s)"
    using assms by (intro randomIndex_less) simp_all
  with botMove_played [OF assms] show ?thesis by (intro conjI)
qed

theorem randomIndex_in_bounds_witness:
  "isDouble almostOne \<and> belowOne almostOne
   \<and> candidates exampleWordlist afterIndia
       = [ascii ''afghanistan'', ascii ''albania'', ascii ''australia'']
   \<and> randomIndex almostOne 3 = 2
   \<and> randomIndex almostOne (length (candidates exampleWordlist afterIndia))
       < length (candidates exampleWordlist afterIndia)
   \<and> candidates exampleWordlist afterIndia
        ! randomIndex almostOne (length (candidates exampleWordlist afterIndia))
       \<in> set (candidates exampleWordlist afterIndia)"
proof -
  have ne: "candidates exampleWordlist afterIndia \<noteq> []"
    by (simp add: candidates_afterIndia)
  note t = randomIndex_in_bounds [OF almostOne_ok ne]
  from t have a: "randomIndex almostOne (length (candidates exampleWordlist afterIndia))
       < length (candidates exampleWordlist afterIndia)" by (rule conjunct1)
  from t have b: "candidates exampleWordlist afterIndia
        ! randomIndex almostOne (length (candidates exampleWordlist afterIndia))
       \<in> set (candidates exampleWordlist afterIndia)" by (rule conjunct2 [THEN conjunct1])
  from almostOne_ok candidates_afterIndia randomIndex_almostOne_3 a b
  show ?thesis by (intro conjI)
qed

text \<open>
  C5. In every state of a run, a move accepted from the player or made by the bot appends
  its (non-empty) word at the end of \<^verbatim>\<open>used\<close> and sets \<^verbatim>\<open>lastLetter\<close> to that word's last
  code unit; hence after at least one move \<^verbatim>\<open>lastLetter\<close> is the last code unit of the
  word played last.
\<close>
theorem accepted_move_appends:
  assumes "run wl evs initial = Inr s"
  shows "(playWord wl v s = (PlayerPlayed w, s') \<longrightarrow>
            w \<noteq> [] \<and> s' = s\<lparr>used := used s @ [w], lastLetter := Str [last w]\<rparr>)
    \<and> (botMove wl r s = Inr (BotPlayed w', s'') \<longrightarrow>
            w' \<noteq> [] \<and> s'' = s\<lparr>used := used s @ [w'], lastLetter := Str [last w']\<rparr>)
    \<and> (used s \<noteq> [] \<longrightarrow> last (used s) \<noteq> [] \<and> lastLetter s = Str [last (last (used s))])"
proof -
  have inv: "matchInv wl s" using assms by (rule matchInv_reach)
  have p: "playWord wl v s = (PlayerPlayed w, s') \<longrightarrow>
            w \<noteq> [] \<and> s' = s\<lparr>used := used s @ [w], lastLetter := Str [last w]\<rparr>"
    by (auto simp: playWord_eq Let_def sliceLast_def split: if_splits)
  have b: "botMove wl r s = Inr (BotPlayed w', s'') \<longrightarrow>
            w' \<noteq> [] \<and> s'' = s\<lparr>used := used s @ [w'], lastLetter := Str [last w']\<rparr>"
  proof
    assume "botMove wl r s = Inr (BotPlayed w', s'')"
    from botMove_Inr [OF this]
    have w: "w' \<in> set (candidates wl s)"
      and s: "s'' = s\<lparr>used := used s @ [w'], lastLetter := Str (sliceLast w')\<rparr>"
      by auto
    from candidates_nonempty_word(1) [OF inv w] s
    show "w' \<noteq> [] \<and> s'' = s\<lparr>used := used s @ [w'], lastLetter := Str [last w']\<rparr>"
      by (simp add: sliceLast_def)
  qed
  have l: "used s \<noteq> [] \<longrightarrow> last (used s) \<noteq> [] \<and> lastLetter s = Str [last (last (used s))]"
    using matchInv_last [OF inv] by blast
  from p b l show ?thesis by (intro conjI)
qed

theorem accepted_move_appends_witness:
  "run exampleWordlist [Submit (ascii ''India''), Bot almostOne] initial = Inr afterAustralia
   \<and> playWord exampleWordlist (ascii ''Albania'') afterAustralia
        = (PlayerPlayed (ascii ''albania''), afterAlbania)
   \<and> botMove exampleWordlist almostOne afterAustralia
        = Inr (BotPlayed (ascii ''albania''), afterAlbania)
   \<and> ascii ''albania'' \<noteq> []
   \<and> afterAlbania = afterAustralia\<lparr>used := used afterAustralia @ [ascii ''albania''],
                                     lastLetter := Str [last (ascii ''albania'')]\<rparr>
   \<and> used afterAustralia \<noteq> []
   \<and> last (used afterAustralia) \<noteq> []
   \<and> lastLetter afterAustralia = Str [last (last (used afterAustralia))]"
proof -
  note t = accepted_move_appends [OF run_India_bot, of "ascii ''Albania''" "ascii ''albania''"
      afterAlbania almostOne "ascii ''albania''" afterAlbania]
  from t playWord_Albania_afterAustralia
  have a: "ascii ''albania'' \<noteq> []"
    and b: "afterAlbania = afterAustralia\<lparr>used := used afterAustralia @ [ascii ''albania''],
                                     lastLetter := Str [last (ascii ''albania'')]\<rparr>"
    by blast+
  from t botMove_afterAustralia
  have "afterAlbania = afterAustralia\<lparr>used := used afterAustralia @ [ascii ''albania''],
                                     lastLetter := Str [last (ascii ''albania'')]\<rparr>"
    by blast
  from t used_afterAustralia_ne
  have c: "last (used afterAustralia) \<noteq> []"
    and d: "lastLetter afterAustralia = Str [last (last (used afterAustralia))]"
    by blast+
  from run_India_bot playWord_Albania_afterAustralia botMove_afterAustralia a b
    used_afterAustralia_ne c d
  show ?thesis by (intro conjI)
qed

text \<open>
  C4, as stated, fails in its third part: after ``India'' the required letter is \<^verbatim>\<open>a\<close>; the
  input ``Zebra'' begins with another letter and a previous word exists, yet \<^verbatim>\<open>playWord\<close>
  reports an unknown word, not a letter mismatch, because the vocabulary check comes
  first.
\<close>
theorem letterMismatch_counterexample:
  "run exampleWordlist [Submit (ascii ''India'')] initial = Inr afterIndia
   \<and> used afterIndia \<noteq> []
   \<and> lastLetter afterIndia = Str (ascii ''a'')
   \<and> index0 (normalizeInput (ascii ''Zebra'')) = Str (ascii ''z'')
   \<and> index0 (normalizeInput (ascii ''Zebra'')) \<noteq> lastLetter afterIndia
   \<and> playWord exampleWordlist (ascii ''Zebra'') afterIndia = (UnknownWord, afterIndia)
   \<and> UnknownWord \<noteq> LetterMismatch (lastLetter afterIndia)"
proof -
  have "used afterIndia \<noteq> []" by (simp add: afterIndia_def)
  moreover have "lastLetter afterIndia = Str (ascii ''a'')" by (simp add: afterIndia_def)
  moreover have "index0 (normalizeInput (ascii ''Zebra'')) = Str (ascii ''z'')" by code_simp
  moreover have "index0 (normalizeInput (ascii ''Zebra'')) \<noteq> lastLetter afterIndia" by code_simp
  moreover have "playWord exampleWordlist (ascii ''Zebra'') afterIndia = (UnknownWord, afterIndia)"
    by code_simp
  moreover have "UnknownWord \<noteq> LetterMismatch (lastLetter afterIndia)" by simp
  ultimately show ?thesis using run_India by (intro conjI)
qed

text \<open>
  C4, amended. In every state of a run, \<^verbatim>\<open>playWord\<close> reports an unknown word iff the
  normalized input is non-empty and not in the word list; a word already used iff the
  normalized input is in the word list and in \<^verbatim>\<open>used\<close>; a letter mismatch iff the
  normalized input is non-empty, in the word list and not yet used, a previous word
  exists and the input's first code unit differs from the required letter. The first
  move is exempt from the letter check: any non-empty normalized input in the word list
  is accepted.
\<close>

theorem playWord_failure_kinds:
  assumes "run wl evs initial = Inr s"
  shows "(fst (playWord wl v s) = UnknownWord \<longleftrightarrow>
            normalizeInput v \<noteq> [] \<and> normalizeInput v \<notin> set wl)
    \<and> (fst (playWord wl v s) = WordAlreadyUsed \<longleftrightarrow>
            normalizeInput v \<in> set wl \<and> normalizeInput v \<in> set (used s))
    \<and> ((\<exists>l. fst (playWord wl v s) = LetterMismatch l) \<longleftrightarrow>
            normalizeInput v \<noteq> [] \<and> normalizeInput v \<in> set wl
            \<and> normalizeInput v \<notin> set (used s)
            \<and> used s \<noteq> [] \<and> index0 (normalizeInput v) \<noteq> lastLetter s)
    \<and> (used s = [] \<and> normalizeInput v \<noteq> [] \<and> normalizeInput v \<in> set wl \<longrightarrow>
            playWord wl v s =
              (PlayerPlayed (normalizeInput v),
               s\<lparr>used := [normalizeInput v], lastLetter := Str [last (normalizeInput v)]\<rparr>))"
proof -
  have inv: "matchInv wl s" using assms by (rule matchInv_reach)
  note tr = matchInv_truthy [OF inv]
  have ne: "normalizeInput v \<in> set (used s) \<Longrightarrow> normalizeInput v \<noteq> []"
    using inv by (auto simp: matchInv_def includes_arr_def)
  have sub: "normalizeInput v \<in> set (used s) \<Longrightarrow> normalizeInput v \<in> set wl"
    using inv by (auto simp: matchInv_def includes_arr_def list_all_iff)
  have a: "fst (playWord wl v s) = UnknownWord \<longleftrightarrow>
            normalizeInput v \<noteq> [] \<and> normalizeInput v \<notin> set wl"
    by (simp add: playWord_eq Let_def)
  have b: "fst (playWord wl v s) = WordAlreadyUsed \<longleftrightarrow>
            normalizeInput v \<in> set wl \<and> normalizeInput v \<in> set (used s)"
    using ne by (auto simp: playWord_eq Let_def)
  have c: "(\<exists>l. fst (playWord wl v s) = LetterMismatch l) \<longleftrightarrow>
            normalizeInput v \<noteq> [] \<and> normalizeInput v \<in> set wl
            \<and> normalizeInput v \<notin> set (used s)
            \<and> used s \<noteq> [] \<and> index0 (normalizeInput v) \<noteq> lastLetter s"
    by (simp add: playWord_eq Let_def tr)
  have d: "used s = [] \<and> normalizeInput v \<noteq> [] \<and> normalizeInput v \<in> set wl \<longrightarrow>
            playWord wl v s =
              (PlayerPlayed (normalizeInput v),
               s\<lparr>used := [normalizeInput v], lastLetter := Str [last (normalizeInput v)]\<rparr>)"
    using tr by (auto simp: playWord_eq Let_def sliceLast_def)
  from a b c d show ?thesis by (intro conjI)
qed

theorem playWord_failure_kinds_witness:
  "run exampleWordlist [Submit (ascii ''India'')] initial = Inr afterIndia
   \<and> normalizeInput (ascii ''Nepal'') = ascii ''nepal''
   \<and> ascii ''nepal'' \<noteq> []
   \<and> ascii ''nepal'' \<in> set exampleWordlist
   \<and> ascii ''nepal'' \<notin> set (used afterIndia)
   \<and> used afterIndia \<noteq> []
   \<and> index0 (ascii ''nepal'') \<noteq> lastLetter afterIndia
   \<and> (\<exists>l. fst (playWord exampleWordlist (ascii ''Nepal'') afterIndia) = LetterMismatch l)
   \<and> run exampleWordlist [] initial = Inr initial
   \<and> used initial = []
   \<and> playWord exampleWordlist (ascii ''Nepal'') initial =
        (PlayerPlayed (ascii ''nepal''),
         initial\<lparr>used := [ascii ''nepal''], lastLetter := Str [last (ascii ''nepal'')]\<rparr>)"
proof -
  have n: "normalizeInput (ascii ''Nepal'') = ascii ''nepal''" by code_simp
  have ne: "ascii ''nepal'' \<noteq> []" by code_simp
  have m: "ascii ''nepal'' \<in> set exampleWordlist" by code_simp
  have u: "ascii ''nepal'' \<notin> set (used afterIndia)" by code_simp
  have e: "used afterIndia \<noteq> []" by (simp add: afterIndia_def)
  have i: "index0 (ascii ''nepal'') \<noteq> lastLetter afterIndia" by code_simp
  have u0: "used initial = []" by (simp add: initial_def)
  from playWord_failure_kinds [OF run_India, of "ascii ''Nepal''"] ne m u e i
  have a: "\<exists>l. fst (playWord exampleWordlist (ascii ''Nepal'') afterIndia) = LetterMismatch l"
    unfolding n by blast
  from playWord_failure_kinds [OF run_Nil_initial, of "ascii ''Nepal''"] ne m u0
  have b: "playWord exampleWordlist (ascii ''Nepal'') initial =
        (PlayerPlayed (ascii ''nepal''),
         initial\<lparr>used := [ascii ''nepal''], lastLetter := Str [last (ascii ''nepal'')]\<rparr>)"
    unfolding n by blast
  from run_India n ne m u e i a run_Nil_initial u0 b show ?thesis by (intro conjI)
qed

text \<open>
  C6, as stated, fails: the script keeps no record of whose turn it is. After the player's
  ``India'' and the bot's ``australia'' the game awaits the player; a further call of
  \<^verbatim>\<open>botMove\<close> plays ``albania'' and so changes \<^verbatim>\<open>used\<close>.
\<close>

theorem botMove_twice_counterexample:
  "run exampleWordlist [Submit (ascii ''India''), Bot almostOne] initial = Inr afterAustralia
   \<and> botMove exampleWordlist almostOne afterAustralia
        = Inr (BotPlayed (ascii ''albania''), afterAlbania)
   \<and> used afterAlbania \<noteq> used afterAustralia"
proof -
  have "used afterAlbania \<noteq> used afterAustralia"
    by (simp add: afterAlbania_def afterAustralia_def)
  with run_India_bot botMove_afterAustralia show ?thesis by (intro conjI)
qed

text \<open>
  C6, amended. \<^verbatim>\<open>botMove\<close> called before any move has been accepted reports that the
  player won and changes nothing, and a call repeated in the state where it has just
  reported that changes nothing either. Once \<^verbatim>\<open>botMove\<close> has reported that the player
  won in a run in which a move has been accepted, the game is over: no later call of
  \<^verbatim>\<open>playWord\<close> or \<^verbatim>\<open>botMove\<close>, in any order, changes \<^verbatim>\<open>used\<close> or \<^verbatim>\<open>lastLetter\<close>. In any
  state \<^verbatim>\<open>botMove\<close> leaves \<^verbatim>\<open>used\<close> and \<^verbatim>\<open>lastLetter\<close> unchanged exactly when no unused
  entry of the word list begins with \<^verbatim>\<open>lastLetter\<close>.
\<close>

theorem botMove_unchanged_iff:
  "botMove wl r initial = Inr (PlayerWon, initial)
   \<and> (botMove wl r s = Inr (PlayerWon, s') \<longrightarrow>
         s' = s \<and> botMove wl r' s' = Inr (PlayerWon, s'))
   \<and> (run wl evs initial = Inr t \<and> used t \<noteq> [] \<and> botMove wl r t = Inr (PlayerWon, t') \<longrightarrow>
         t' = t \<and> snd (playWord wl v t) = t \<and> botMove wl r' t = Inr (PlayerWon, t)
         \<and> run wl evs' t = Inr t)
   \<and> (isDouble r \<and> belowOne r \<longrightarrow>
         (\<exists>res s'. botMove wl r s = Inr (res, s')
            \<and> ((used s' = used s \<and> lastLetter s' = lastLetter s) \<longleftrightarrow> candidates wl s = [])))"
proof -
  have "candidates wl initial = []"
  proof (rule ccontr)
    assume "candidates wl initial \<noteq> []"
    then obtain w where "w \<in> set (candidates wl initial)" by (cases "candidates wl initial") auto
    from candidates_nonempty_word(3) [OF matchInv_initial this] show False
      by (simp add: initial_def)
  qed
  then have a: "botMove wl r initial = Inr (PlayerWon, initial)" by (rule botMove_stuck)
  have b: "botMove wl r s = Inr (PlayerWon, s') \<longrightarrow>
         s' = s \<and> botMove wl r' s' = Inr (PlayerWon, s')"
  proof
    assume "botMove wl r s = Inr (PlayerWon, s')"
    from botMove_Inr [OF this] have "candidates wl s = []" and "s' = s" by auto
    then show "s' = s \<and> botMove wl r' s' = Inr (PlayerWon, s')" by (simp add: botMove_stuck)
  qed
  have f: "run wl evs initial = Inr t \<and> used t \<noteq> [] \<and> botMove wl r t = Inr (PlayerWon, t') \<longrightarrow>
         t' = t \<and> snd (playWord wl v t) = t \<and> botMove wl r' t = Inr (PlayerWon, t)
         \<and> run wl evs' t = Inr t"
  proof
    assume h: "run wl evs initial = Inr t \<and> used t \<noteq> [] \<and> botMove wl r t = Inr (PlayerWon, t')"
    then have "run wl evs initial = Inr t" by (rule conjunct1)
    then have inv: "matchInv wl t" by (rule matchInv_reach)
    from h have ne: "used t \<noteq> []" by blast
    from h have "botMove wl r t = Inr (PlayerWon, t')" by blast
    from botMove_Inr [OF this] have st: "candidates wl t = []" and eq: "t' = t" by auto
    have tr: "truthy (lastLetter t)" using matchInv_truthy [OF inv] ne by simp
    from eq stuck_playWord [OF tr st] botMove_stuck [OF st] stuck_run [OF tr st]
    show "t' = t \<and> snd (playWord wl v t) = t \<and> botMove wl r' t = Inr (PlayerWon, t)
         \<and> run wl evs' t = Inr t"
      by (intro conjI)
  qed
  have c: "isDouble r \<and> belowOne r \<longrightarrow>
         (\<exists>res s'. botMove wl r s = Inr (res, s')
            \<and> ((used s' = used s \<and> lastLetter s' = lastLetter s) \<longleftrightarrow> candidates wl s = []))"
  proof (cases "candidates wl s = []")
    case True
    then show ?thesis by (simp add: botMove_stuck)
  next
    case False
    show ?thesis
    proof
      assume "isDouble r \<and> belowOne r"
      then have "isDouble r" "belowOne r" by simp_all
      from botMove_played(1) [OF this False] False
      show "\<exists>res s'. botMove wl r s = Inr (res, s')
            \<and> ((used s' = used s \<and> lastLetter s' = lastLetter s) \<longleftrightarrow> candidates wl s = [])"
        by simp
    qed
  qed
  from a b f c show ?thesis by (intro conjI)
qed

theorem botMove_unchanged_iff_witness:
  "botMove exampleWordlist almostOne initial = Inr (PlayerWon, initial)
   \<and> run exampleWordlist
       [Submit (ascii ''India''), Submit (ascii ''afghanistan''), Submit (ascii ''nepal''),
        Submit (ascii ''laos'')] initial = Inr afterLaos
   \<and> used afterLaos \<noteq> []
   \<and> botMove exampleWordlist almostOne afterLaos = Inr (PlayerWon, afterLaos)
   \<and> snd (playWord exampleWordlist (ascii ''Sweden'') afterLaos) = afterLaos
   \<and> run exampleWordlist [Submit (ascii ''Sweden''), Bot almostOne, Submit (ascii ''Albania'')]
        afterLaos = Inr afterLaos
   \<and> isDouble almostOne \<and> belowOne almostOne
   \<and> candidates exampleWordlist afterIndia \<noteq> []
   \<and> (\<exists>res s'. botMove exampleWordlist almostOne afterIndia = Inr (res, s')
         \<and> \<not> (used s' = used afterIndia \<and> lastLetter s' = lastLetter afterIndia))"
proof -
  have p: "botMove exampleWordlist almostOne afterLaos = Inr (PlayerWon, afterLaos)"
    using candidates_afterLaos by (rule botMove_stuck)
  have u: "used afterLaos \<noteq> []" by (simp add: afterLaos_def)
  have ne: "candidates exampleWordlist afterIndia \<noteq> []" by (simp add: candidates_afterIndia)
  note t = botMove_unchanged_iff [of exampleWordlist almostOne afterLaos afterLaos almostOne
      "[Submit (ascii ''India''), Submit (ascii ''afghanistan''), Submit (ascii ''nepal''),
        Submit (ascii ''laos'')]" afterLaos afterLaos "ascii ''Sweden''"
      "[Submit (ascii ''Sweden''), Bot almostOne, Submit (ascii ''Albania'')]"]
  from t have a: "botMove exampleWordlist almostOne initial = Inr (PlayerWon, initial)"
    by (rule conjunct1)
  from t p have b: "botMove exampleWordlist almostOne afterLaos = Inr (PlayerWon, afterLaos)"
    by blast
  from t run_four u p
  have d: "snd (playWord exampleWordlist (ascii ''Sweden'') afterLaos) = afterLaos"
    and e: "run exampleWordlist [Submit (ascii ''Sweden''), Bot almostOne, Submit (ascii ''Albania'')]
        afterLaos = Inr afterLaos"
    by blast+
  from botMove_unchanged_iff [of exampleWordlist almostOne afterIndia] almostOne_ok ne
  have c: "\<exists>res s'. botMove exampleWordlist almostOne afterIndia = Inr (res, s')
         \<and> \<not> (used s' = used afterIndia \<and> lastLetter s' = lastLetter afterIndia)"
    by blast
  from a run_four u b d e almostOne_ok ne c show ?thesis by (intro conjI)
qed

text \<open>
  C10. Once set by an accepted move, \<^verbatim>\<open>lastLetter\<close> is a string of exactly one code unit
  in \<^verbatim>\<open>a\<close>--\<^verbatim>\<open>z\<close>: a move accepted from the player sets it so from any state, its word
  being a non-empty result of normalization; and when every entry of \<^verbatim>\<open>wordlist\<close> is a
  normalized form, it is so in every state of a run after the first move (and \<^verbatim>\<open>null\<close>
  before it), bot moves included.
\<close>
theorem lastLetter_lowercase:
  "(playWord wl v s0 = (PlayerPlayed w, s1) \<longrightarrow> (\<exists>c. isLowerAZ c \<and> lastLetter s1 = Str [c]))
   \<and> (normalizedWordlist wl \<and> run wl evs initial = Inr s \<longrightarrow>
        (used s = [] \<and> lastLetter s = Null)
        \<or> (used s \<noteq> [] \<and> (\<exists>c. isLowerAZ c \<and> lastLetter s = Str [c])))"
proof -
  have a: "playWord wl v s0 = (PlayerPlayed w, s1) \<longrightarrow> (\<exists>c. isLowerAZ c \<and> lastLetter s1 = Str [c])"
  proof
    assume "playWord wl v s0 = (PlayerPlayed w, s1)"
    then have w: "w = normalizeInput v" "w \<noteq> []" and l: "lastLetter s1 = Str (sliceLast w)"
      by (auto simp: playWord_eq Let_def split: if_splits)
    from w have "last w \<in> set (normalizeInput v)" by simp
    then have "isLowerAZ (last w)" by (rule normalizeInput_lower)
    with l w(2) show "\<exists>c. isLowerAZ c \<and> lastLetter s1 = Str [c]" by (simp add: sliceLast_def)
  qed
  have b: "normalizedWordlist wl \<and> run wl evs initial = Inr s \<longrightarrow>
        (used s = [] \<and> lastLetter s = Null)
        \<or> (used s \<noteq> [] \<and> (\<exists>c. isLowerAZ c \<and> lastLetter s = Str [c]))"
  proof
    assume h: "normalizedWordlist wl \<and> run wl evs initial = Inr s"
    then have "run wl evs initial = Inr s" by (rule conjunct2)
    then have inv: "matchInv wl s" by (rule matchInv_reach)
    show "(used s = [] \<and> lastLetter s = Null)
        \<or> (used s \<noteq> [] \<and> (\<exists>c. isLowerAZ c \<and> lastLetter s = Str [c]))"
    proof (cases "used s = []")
      case True
      with inv show ?thesis by (simp add: matchInv_def)
    next
      case False
      note l = matchInv_last [OF inv False]
      have "last (used s) \<in> set (used s)" using False by (rule last_in_set)
      with inv have "last (used s) \<in> set wl"
        by (auto simp: matchInv_def includes_arr_def list_all_iff)
      with h have "list_all isLowerAZ (last (used s))"
        by (simp add: normalizedWordlist_def list_all_iff)
      with l(1) have "isLowerAZ (last (last (used s)))" by (simp add: list_all_iff)
      with l(2) False show ?thesis by blast
    qed
  qed
  from a b show ?thesis by (intro conjI)
qed

theorem lastLetter_lowercase_witness:
  "normalizedWordlist exampleWordlist
   \<and> run exampleWordlist [Submit (ascii ''India''), Bot almostOne] initial = Inr afterAustralia
   \<and> used afterAustralia \<noteq> []
   \<and> (\<exists>c. isLowerAZ c \<and> lastLetter afterAustralia = Str [c])
   \<and> playWord exampleWordlist (ascii ''Albania'') afterAustralia
        = (PlayerPlayed (ascii ''albania''), afterAlbania)
   \<and> (\<exists>c. isLowerAZ c \<and> lastLetter afterAlbania = Str [c])"
proof -
  have n: "normalizedWordlist exampleWordlist" by code_simp
  note t = lastLetter_lowercase [of exampleWordlist "ascii ''Albania''" afterAustralia
      "ascii ''albania''" afterAlbania "[Submit (ascii ''India''), Bot almostOne]" afterAustralia]
  from t n run_India_bot used_afterAustralia_ne
  have a: "\<exists>c. isLowerAZ c \<and> lastLetter afterAustralia = Str [c]" by blast
  from t playWord_Albania_afterAustralia
  have b: "\<exists>c. isLowerAZ c \<and> lastLetter afterAlbania = Str [c]" by blast
  from n run_India_bot used_afterAustralia_ne a playWord_Albania_afterAustralia b
  show ?thesis by (intro conjI)
qed

end
